theory Spec2Isabelle
  imports Complex_Main
begin

section \<open>SessionStore: the SQLite database of \<^verbatim>\<open>bot/database/db.py\<close>\<close>

text \<open>
  The two tables of \<^verbatim>\<open>_create_tables\<close> are lists of rows in insertion order.
  The status columns are TEXT; the code writes only the four session values and the two
  file values below, so they are datatypes. Timestamps are seconds on one clock
  (\<^verbatim>\<open>CURRENT_TIMESTAMP\<close> has a resolution of one second); every operation takes the
  current time \<open>now\<close> as an argument. Indices are natural numbers: the code stores
  \<open>0\<close> (the column default) and \<open>index + 1\<close> for \<open>index\<close> of a \<^verbatim>\<open>range\<close>.
\<close>

datatype session_status = Pending | Downloading | Completed | Cancelled

datatype file_status = FilePending | FileCompleted

datatype db_error = IntegrityError

record session =
  sess_id :: nat
  user_id :: nat
  folder_link :: string
  current_index :: nat
  status :: session_status
  created_at :: int
  updated_at :: int

record session_file =
  session_id :: nat
  file_index :: nat
  file_handle :: string
  file_name :: string
  file_size :: nat
  file_status :: file_status

text \<open>A file dictionary \<^verbatim>\<open>{'handle': .., 'name': .., 'size': ..}\<close> of the folder lister.\<close>

record file_info =
  handle :: string
  name :: string
  size_bytes :: nat

text \<open>\<open>seq\<close> is the AUTOINCREMENT counter of table \<^verbatim>\<open>sessions\<close>: ids are never reused.\<close>

record database =
  sessions :: "session list"
  session_files :: "session_file list"
  seq :: nat

definition empty_db :: database where
  "empty_db = \<lparr>sessions = [], session_files = [], seq = 0\<rparr>"

text \<open>\<^verbatim>\<open>status IN ('pending', 'downloading')\<close>\<close>

definition is_active :: "session \<Rightarrow> bool" where
  "is_active s = (status s = Pending \<or> status s = Downloading)"

text \<open>\<^verbatim>\<open>status IN ('completed', 'cancelled')\<close>\<close>

definition is_terminal :: "session \<Rightarrow> bool" where
  "is_terminal s = (status s = Completed \<or> status s = Cancelled)"

text \<open>
  The table constraint \<^verbatim>\<open>UNIQUE(user_id, status)\<close>. SQLite checks it on every INSERT and
  UPDATE of \<^verbatim>\<open>sessions\<close>; a statement that would break it fails with an integrity error
  and changes nothing.
\<close>

definition unique_user_status :: "session list \<Rightarrow> bool" where
  "unique_user_status ss = distinct (map (\<lambda>s. (user_id s, status s)) ss)"

text \<open>
  The connection opened by \<^verbatim>\<open>_ensure_connected\<close> only sets the row factory and creates the
  tables: it never issues \<^verbatim>\<open>PRAGMA foreign_keys = ON\<close>. SQLite enforces foreign keys, and so
  runs \<^verbatim>\<open>ON DELETE CASCADE\<close>, only on a connection that has switched them on.
\<close>

definition foreign_keys :: bool where
  "foreign_keys = False"

text \<open>\<^verbatim>\<open>DELETE FROM sessions WHERE P\<close>, with the cascade of \<^verbatim>\<open>session_files.session_id\<close>.\<close>

definition delete_sessions :: "(session \<Rightarrow> bool) \<Rightarrow> database \<Rightarrow> database" where
  "delete_sessions P db =
     (let gone = map sess_id (filter P (sessions db))
      in db\<lparr>sessions := filter (\<lambda>s. \<not> P s) (sessions db),
            session_files :=
              (if foreign_keys
               then filter (\<lambda>f. session_id f \<notin> set gone) (session_files db)
               else session_files db)\<rparr>)"

subsection \<open>\<^verbatim>\<open>create_session\<close>\<close>

definition cancel_active :: "int \<Rightarrow> nat \<Rightarrow> session \<Rightarrow> session" where
  "cancel_active now u s =
     (if user_id s = u \<and> is_active s
      then s\<lparr>status := Cancelled, updated_at := now\<rparr> else s)"

definition new_session :: "int \<Rightarrow> nat \<Rightarrow> nat \<Rightarrow> string \<Rightarrow> session" where
  "new_session now i u link =
     \<lparr>sess_id = i, user_id = u, folder_link = link, current_index = 0,
      status = Downloading, created_at = now, updated_at = now\<rparr>"

definition file_row :: "nat \<Rightarrow> nat \<times> file_info \<Rightarrow> session_file" where
  "file_row i p =
     \<lparr>session_id = i, file_index = fst p, file_handle = handle (snd p),
      file_name = name (snd p), file_size = size_bytes (snd p), file_status = FilePending\<rparr>"

text \<open>
  The three statements run in one transaction that is committed at the end. A failing
  statement raises before the commit, and the caller closes the connection, which
  discards what was not committed: the result is the error alone and the stored
  database stays the one passed in.
\<close>

definition create_session ::
  "int \<Rightarrow> nat \<Rightarrow> string \<Rightarrow> file_info list \<Rightarrow> database \<Rightarrow> db_error + (nat \<times> database)" where
  "create_session now u link files db =
     (let cancelled = map (cancel_active now u) (sessions db) in
      if \<not> unique_user_status cancelled then Inl IntegrityError
      else
        let i = seq db + 1;
            inserted = cancelled @ [new_session now i u link] in
        if \<not> unique_user_status inserted then Inl IntegrityError
        else Inr (i, \<lparr>sessions = inserted,
                      session_files = session_files db @ map (file_row i) (enumerate 0 files),
                      seq = i\<rparr>))"

subsection \<open>\<^verbatim>\<open>get_session\<close>, \<^verbatim>\<open>get_session_files\<close>\<close>

text \<open>
  \<^verbatim>\<open>ORDER BY created_at DESC LIMIT 1\<close>: the row with the greatest \<open>created_at\<close>. SQLite
  leaves the choice among equal timestamps open; the model takes the earliest row.
\<close>

fun newest :: "session list \<Rightarrow> session option" where
  "newest [] = None"
| "newest (s # ss) =
     (case newest ss of
        None \<Rightarrow> Some s
      | Some t \<Rightarrow> if created_at s < created_at t then Some t else Some s)"

definition get_session :: "nat \<Rightarrow> database \<Rightarrow> session option" where
  "get_session u db = newest (filter (\<lambda>s. user_id s = u \<and> is_active s) (sessions db))"

definition get_session_files :: "nat \<Rightarrow> database \<Rightarrow> session_file list" where
  "get_session_files i db =
     sort_key file_index (filter (\<lambda>f. session_id f = i) (session_files db))"

subsection \<open>\<^verbatim>\<open>update_session_index\<close>, \<^verbatim>\<open>complete_session\<close>, \<^verbatim>\<open>cancel_session\<close>\<close>

definition update_session_index :: "int \<Rightarrow> nat \<Rightarrow> nat \<Rightarrow> database \<Rightarrow> database" where
  "update_session_index now i new_index db =
     db\<lparr>sessions :=
          map (\<lambda>s. if sess_id s = i
                   then s\<lparr>current_index := new_index, updated_at := now\<rparr> else s)
              (sessions db),
        session_files :=
          map (\<lambda>f. if session_id f = i \<and> file_index f < new_index
                   then f\<lparr>file_status := FileCompleted\<rparr> else f)
              (session_files db)\<rparr>"

definition set_status :: "int \<Rightarrow> nat \<Rightarrow> session_status \<Rightarrow> session \<Rightarrow> session" where
  "set_status now i st s =
     (if sess_id s = i then s\<lparr>status := st, updated_at := now\<rparr> else s)"

definition complete_session :: "int \<Rightarrow> nat \<Rightarrow> database \<Rightarrow> db_error + database" where
  "complete_session now i db =
     (let updated = map (set_status now i Completed) (sessions db) in
      if \<not> unique_user_status updated then Inl IntegrityError
      else Inr (db\<lparr>sessions := updated,
                   session_files :=
                     map (\<lambda>f. if session_id f = i
                              then f\<lparr>file_status := FileCompleted\<rparr> else f)
                         (session_files db)\<rparr>))"

definition cancel_session :: "int \<Rightarrow> nat \<Rightarrow> database \<Rightarrow> db_error + database" where
  "cancel_session now i db =
     (let updated = map (set_status now i Cancelled) (sessions db) in
      if \<not> unique_user_status updated then Inl IntegrityError
      else Inr (db\<lparr>sessions := updated\<rparr>))"

subsection \<open>\<^verbatim>\<open>cleanup_old_sessions\<close>\<close>

text \<open>
  \<^verbatim>\<open>updated_at < datetime('now', '-' || days || ' days')\<close>, a day being 86400 seconds.
  The only caller passes \<open>days = 7\<close>; \<open>days\<close> is a natural number here.
\<close>

definition cleanup_old_sessions :: "int \<Rightarrow> nat \<Rightarrow> database \<Rightarrow> database" where
  "cleanup_old_sessions now days db =
     delete_sessions (\<lambda>s. is_terminal s \<and> updated_at s < now - int days * 86400) db"


text \<open>The file statuses that \<^verbatim>\<open>get_session_files\<close> reports for a session.\<close>

definition list_statuses :: "nat \<Rightarrow> database \<Rightarrow> (nat \<times> file_status) list" where
  "list_statuses i db = map (\<lambda>f. (file_index f, file_status f)) (get_session_files i db)"

text \<open>At most one session of user \<open>u\<close> is pending or downloading.\<close>

definition active_sessions :: "nat \<Rightarrow> database \<Rightarrow> session list" where
  "active_sessions u db = filter (\<lambda>s. user_id s = u \<and> is_active s) (sessions db)"

text \<open>
  The states of the store: the empty database, and whatever a committed operation of
  \<^verbatim>\<open>Database\<close> makes of a state of the store.
\<close>

inductive reachable :: "database \<Rightarrow> bool" where
  r_empty: "reachable empty_db"
| r_create: "reachable db \<Longrightarrow> create_session now u link files db = Inr (i, db') \<Longrightarrow>
             reachable db'"
| r_index: "reachable db \<Longrightarrow> reachable (update_session_index now i n db)"
| r_complete: "reachable db \<Longrightarrow> complete_session now i db = Inr db' \<Longrightarrow> reachable db'"
| r_cancel: "reachable db \<Longrightarrow> cancel_session now i db = Inr db' \<Longrightarrow> reachable db'"
| r_cleanup: "reachable db \<Longrightarrow> reachable (cleanup_old_sessions now days db)"

section \<open>ProgressTracker: \<^verbatim>\<open>bot/utils/progress.py\<close>\<close>

text \<open>
  \<^verbatim>\<open>time.time()\<close>, the speed and the percentage are floats in the source; here they are
  exact rationals, so rounding is left out. \<^verbatim>\<open>int(x)\<close> truncates towards zero. The
  lock of \<^verbatim>\<open>update\<close> encloses no suspension point, so the body is one step.
\<close>

record ProgressData =
  current :: int
  total_size :: int
  speed :: rat
  eta :: int
  percentage :: rat
  filename :: string
  pstatus :: string
  start_time :: rat
  last_update :: rat

record ProgressTracker =
  update_interval :: rat
  progress_data :: "nat \<rightharpoonup> ProgressData"

definition py_int :: "rat \<Rightarrow> int" where
  "py_int x = (if x < 0 then \<lceil>x\<rceil> else \<lfloor>x\<rfloor>)"


text \<open>The assignments of \<^verbatim>\<open>update\<close> before the rate limit is looked at.\<close>

definition observe :: "rat \<Rightarrow> int \<Rightarrow> ProgressData \<Rightarrow> ProgressData" where
  "observe now cur d =
     (let d1 = d\<lparr>current := cur\<rparr>;
          d2 = (if total_size d1 > 0
                then d1\<lparr>percentage := (of_int cur / of_int (total_size d1)) * 100\<rparr> else d1);
          elapsed = now - start_time d2
      in if elapsed > 0
         then (let d3 = d2\<lparr>speed := of_int cur / elapsed\<rparr>
               in if speed d3 > 0
                  then d3\<lparr>eta := py_int (of_int (total_size d3 - cur) / speed d3)\<rparr>
                  else d3)
         else d2)"

definition update :: "rat \<Rightarrow> nat \<Rightarrow> int \<Rightarrow> ProgressTracker \<Rightarrow> bool \<times> ProgressTracker" where
  "update now u cur tr =
     (case progress_data tr u of
        None \<Rightarrow> (False, tr)
      | Some d \<Rightarrow>
          let d' = observe now cur d
          in if now - last_update d' \<ge> update_interval tr
             then (True, tr\<lparr>progress_data := (progress_data tr)(u \<mapsto> d'\<lparr>last_update := now\<rparr>)\<rparr>)
             else (False, tr\<lparr>progress_data := (progress_data tr)(u \<mapsto> d')\<rparr>))"

section \<open>The retry policy of \<^verbatim>\<open>MegaDownloader.download_file\<close>\<close>

text \<open>
  \<^verbatim>\<open>download_file\<close> is wrapped by the \<^verbatim>\<open>retry\<close> decorator of the tenacity library with
  \<^verbatim>\<open>stop_after_attempt(Config.MAX_RETRIES)\<close>,
  \<^verbatim>\<open>wait_exponential(multiplier=1, min=4, max=60)\<close> and
  \<^verbatim>\<open>retry_if_exception_type(MegaQuotaError)\<close>. The library is not part of the repository;
  the three definitions below follow its documented behaviour. Attempts are numbered from
  1. After a failed attempt number \<open>n\<close> the wait is
  \<^verbatim>\<open>max(max(0, min), min(multiplier * 2 ** (n - 1), max))\<close> seconds; the policy stops when
  \<open>n \<ge> MAX_RETRIES\<close> and then raises \<^verbatim>\<open>RetryError\<close>, which holds the last attempt; an
  exception that is not a \<^verbatim>\<open>MegaQuotaError\<close> is raised again at once.
\<close>

definition wait_exponential :: "nat \<Rightarrow> nat" where
  "wait_exponential attempt_number =
     max (max 0 4) (min (1 * 2 ^ (attempt_number - 1)) 60)"

text \<open>The formula of the specification, for attempts counted from 0.\<close>

definition spec_backoff :: "nat \<Rightarrow> nat \<Rightarrow> nat \<Rightarrow> nat" where
  "spec_backoff base max_delay i = min max_delay (base * 2 ^ i)"

text \<open>
  What one run of the undecorated \<^verbatim>\<open>download_file\<close> does: it returns, and the staging
  file then has the given size (\<open>None\<close>: there is no file), or it raises
  \<^verbatim>\<open>MegaQuotaError\<close>, or it raises another exception with the given message.
\<close>

datatype attempt = Done "nat option" | QuotaFail | OtherFail string

datatype file_exn =
    RetryError nat
  | Failed string
  | FileNotFoundError string
  | ValueError nat nat
  | UploadFailed string

datatype event =
    DownloadAttempt nat nat
  | Slept nat
  | Upload nat
  | Skipped nat

section \<open>The transfer pipeline: \<^verbatim>\<open>bot/handlers/download.py\<close>\<close>

text \<open>
  The state that the handlers share: the store, the dictionary \<^verbatim>\<open>active_downloads\<close>, the
  clock in seconds, and a log of what the run did (download attempts with file index and
  attempt number, sleeps with their length, uploads, skips). Messages to the user and the
  progress display are left out: the handlers ignore their results.
\<close>

record bot_state =
  db :: database
  active_downloads :: "nat \<rightharpoonup> bool"
  clock :: int
  trace :: "event list"

text \<open>
  The configuration (\<^verbatim>\<open>Config.MAX_RETRIES\<close>, \<^verbatim>\<open>Config.RETRY_DELAY\<close>,
  \<^verbatim>\<open>Config.MAX_FILE_SIZE\<close>, read from the environment) and the collaborators: the folder
  lister (\<open>None\<close>: it raised), the outcome of each download attempt by file index and
  attempt number, the upload (\<open>Some msg\<close>: it raised with that message), the result of
  \<^verbatim>\<open>sanitize_filename\<close>, which only reaches message texts and the staging path, and the
  time at which the user's \<^verbatim>\<open>/cancel\<close> is handled, if any.
\<close>

record env =
  max_retries :: nat
  retry_delay :: nat
  max_file_size :: nat
  get_folder_files :: "string \<Rightarrow> file_info list option"
  attempt_outcome :: "nat \<Rightarrow> nat \<Rightarrow> attempt"
  upload_outcome :: "nat \<Rightarrow> string option"
  sanitize_filename :: "string \<Rightarrow> string"
  cancel_time :: "int option"

text \<open>\<^verbatim>\<open>active_downloads.get(user_id, False)\<close>\<close>

definition flag :: "nat \<Rightarrow> bot_state \<Rightarrow> bool" where
  "flag u st = (active_downloads st u = Some True)"

definition cancel_command :: "nat \<Rightarrow> bot_state \<Rightarrow> bot_state" where
  "cancel_command u st =
     (if flag u st then st\<lparr>active_downloads := (active_downloads st)(u \<mapsto> False)\<rparr> else st)"

definition log :: "event \<Rightarrow> bot_state \<Rightarrow> bot_state" where
  "log ev st = st\<lparr>trace := trace st @ [ev]\<rparr>"

text \<open>
  \<^verbatim>\<open>await asyncio.sleep(d)\<close>: the run is suspended for \<open>d\<close> seconds, and a \<^verbatim>\<open>/cancel\<close> of
  the user that arrives in that time is handled meanwhile. Downloads and uploads take no
  time on the model's clock.
\<close>

definition asyncio_sleep :: "env \<Rightarrow> nat \<Rightarrow> nat \<Rightarrow> bot_state \<Rightarrow> bot_state" where
  "asyncio_sleep e u d st =
     (let st' = (log (Slept d) st)\<lparr>clock := clock st + int d\<rparr>
      in case cancel_time e of
           None \<Rightarrow> st'
         | Some c \<Rightarrow> if clock st \<le> c \<and> c < clock st + int d then cancel_command u st' else st')"

text \<open>The decorated \<^verbatim>\<open>download_file\<close>, from attempt number \<open>n\<close> on.\<close>

function download_file ::
  "env \<Rightarrow> nat \<Rightarrow> nat \<Rightarrow> nat \<Rightarrow> bot_state \<Rightarrow> (file_exn + nat option) \<times> bot_state" where
  "download_file e u index n st =
     (let st1 = log (DownloadAttempt index n) st
      in case attempt_outcome e index n of
           Done sz \<Rightarrow> (Inr sz, st1)
         | OtherFail msg \<Rightarrow> (Inl (Failed msg), st1)
         | QuotaFail \<Rightarrow>
             if n \<ge> max_retries e then (Inl (RetryError n), st1)
             else download_file e u index (n + 1)
                    (asyncio_sleep e u (wait_exponential n) st1))"
  by pat_completeness auto
termination
  by (relation "measure (\<lambda>(e, u, index, n, st). max_retries e - n)") auto

declare download_file.simps [simp del]

text \<open>\<^verbatim>\<open>str.lower\<close> and \<^verbatim>\<open>in\<close> on ASCII text.\<close>

definition lower_char :: "char \<Rightarrow> char" where
  "lower_char c =
     (let k = (of_char c :: nat) in if 65 \<le> k \<and> k \<le> 90 then char_of (k + 32) else c)"

fun contains :: "string \<Rightarrow> string \<Rightarrow> bool" where
  "contains pat [] = (pat = [])"
| "contains pat (c # cs) = (take (length pat) (c # cs) = pat \<or> contains pat cs)"

text \<open>
  \<^verbatim>\<open>"quota" in str(e).lower()\<close>. The text of a \<^verbatim>\<open>RetryError\<close> names the exception of its
  last attempt, \<^verbatim>\<open>MegaQuotaError\<close>; the text of the size mismatch holds two numbers only.
\<close>

fun mentions_quota :: "file_exn \<Rightarrow> bool" where
  "mentions_quota (RetryError n) = True"
| "mentions_quota (Failed msg) = contains ''quota'' (map lower_char msg)"
| "mentions_quota (FileNotFoundError fname) =
     contains ''quota'' (map lower_char (''Download failed: '' @ fname))"
| "mentions_quota (ValueError expected actual) = False"
| "mentions_quota (UploadFailed msg) = contains ''quota'' (map lower_char msg)"

text \<open>
  The \<^verbatim>\<open>try\<close> block of one file: download, check of the staging file, upload, and
  \<^verbatim>\<open>update_session_index\<close> once all of that went through.
\<close>

definition attempt_file ::
  "env \<Rightarrow> nat \<Rightarrow> nat \<Rightarrow> file_info \<Rightarrow> nat \<Rightarrow> bot_state \<Rightarrow> (file_exn + unit) \<times> bot_state" where
  "attempt_file e u sid f index st =
     (case download_file e u index 1 st of
        (Inl x, st1) \<Rightarrow> (Inl x, st1)
      | (Inr None, st1) \<Rightarrow> (Inl (FileNotFoundError (sanitize_filename e (name f))), st1)
      | (Inr (Some actual_size), st1) \<Rightarrow>
          if actual_size \<noteq> size_bytes f
          then (Inl (ValueError (size_bytes f) actual_size), st1)
          else (case upload_outcome e index of
                  Some msg \<Rightarrow> (Inl (UploadFailed msg), log (Upload index) st1)
                | None \<Rightarrow>
                    (Inr (), (log (Upload index) st1)
                       \<lparr>db := update_session_index (clock st1) sid (index + 1) (db st1)\<rparr>)))"

text \<open>
  The \<^verbatim>\<open>except\<close> and \<^verbatim>\<open>finally\<close> blocks. After the sleep of the quota branch the source
  tests the flag and says \<^verbatim>\<open>continue\<close>; with or without it the \<^verbatim>\<open>finally\<close> block runs
  and the \<^verbatim>\<open>for\<close> loop goes on with the next index.
\<close>

definition transfer_file ::
  "env \<Rightarrow> nat \<Rightarrow> nat \<Rightarrow> file_info \<Rightarrow> nat \<Rightarrow> bot_state \<Rightarrow> bot_state" where
  "transfer_file e u sid f index st =
     (case attempt_file e u sid f index st of
        (Inr _, st1) \<Rightarrow> asyncio_sleep e u 1 st1
      | (Inl x, st1) \<Rightarrow>
          asyncio_sleep e u 1
            (if mentions_quota x then asyncio_sleep e u (retry_delay e) st1 else st1))"

text \<open>\<^verbatim>\<open>for index in range(start_index, total_files)\<close>, over the list of the range.\<close>

fun file_loop ::
  "env \<Rightarrow> nat \<Rightarrow> nat \<Rightarrow> file_info list \<Rightarrow> nat list \<Rightarrow> bot_state \<Rightarrow> bot_state" where
  "file_loop e u sid files [] st = st"
| "file_loop e u sid files (index # rest) st =
     (if \<not> flag u st then st
      else
        let f = files ! index in
        if size_bytes f > max_file_size e
        then file_loop e u sid files rest
               ((log (Skipped index) st)
                  \<lparr>db := update_session_index (clock st) sid (index + 1) (db st)\<rparr>)
        else file_loop e u sid files rest (transfer_file e u sid f index st))"

text \<open>The loop and the completion of the session after it.\<close>

definition run_session ::
  "env \<Rightarrow> nat \<Rightarrow> nat \<Rightarrow> file_info list \<Rightarrow> nat \<Rightarrow> bot_state \<Rightarrow> bot_state" where
  "run_session e u sid files start_index st =
     (let st1 = file_loop e u sid files [start_index ..< length files] st
      in if flag u st1
         then (case complete_session (clock st1) sid (db st1) of
                 Inl err \<Rightarrow> st1
               | Inr d \<Rightarrow> st1\<lparr>db := d\<rparr>)
         else st1)"

definition row_info :: "session_file \<Rightarrow> file_info" where
  "row_info r = \<lparr>handle = file_handle r, name = file_name r, size_bytes = file_size r\<rparr>"

text \<open>The branch of a new download: list the folder, create the session, run it.\<close>

definition start_new :: "env \<Rightarrow> string \<Rightarrow> nat \<Rightarrow> bot_state \<Rightarrow> bot_state" where
  "start_new e mega_link u st =
     (case get_folder_files e mega_link of
        None \<Rightarrow> st
      | Some files \<Rightarrow>
          if files = [] then st
          else (case create_session (clock st) u mega_link files (db st) of
                  Inl err \<Rightarrow> st
                | Inr (sid, d) \<Rightarrow> run_session e u sid files 0 (st\<lparr>db := d\<rparr>)))"

definition process_mega_folder :: "env \<Rightarrow> string \<Rightarrow> nat \<Rightarrow> bot_state \<Rightarrow> bot_state" where
  "process_mega_folder e mega_link u st0 =
     (let st = st0\<lparr>active_downloads := (active_downloads st0)(u \<mapsto> True)\<rparr>;
          st' = (case get_session u (db st) of
                   Some s \<Rightarrow>
                     if folder_link s = mega_link
                     then run_session e u (sess_id s)
                            (map row_info (get_session_files (sess_id s) (db st)))
                            (current_index s) st
                     else start_new e mega_link u st
                 | None \<Rightarrow> start_new e mega_link u st)
      in st'\<lparr>active_downloads := (active_downloads st')(u \<mapsto> False)\<rparr>)"

subsection \<open>\<^verbatim>\<open>is_valid_mega_link\<close> and the two entry points\<close>

text \<open>The character class \<^verbatim>\<open>[a-zA-Z0-9_-]\<close>.\<close>

definition id_char :: "char \<Rightarrow> bool" where
  "id_char c =
     (let k = (of_char c :: nat)
      in (97 \<le> k \<and> k \<le> 122) \<or> (65 \<le> k \<and> k \<le> 90) \<or> (48 \<le> k \<and> k \<le> 57)
         \<or> c = CHR ''_'' \<or> c = CHR ''-'')"

fun strip_prefix :: "string \<Rightarrow> string \<Rightarrow> string option" where
  "strip_prefix [] s = Some s"
| "strip_prefix (p # ps) [] = None"
| "strip_prefix (p # ps) (c # cs) = (if p = c then strip_prefix ps cs else None)"

text \<open>\<^verbatim>\<open>[a-zA-Z0-9_-]+\<close> followed by the character \<open>c\<close>, which is not in the class.\<close>

definition id_then :: "char \<Rightarrow> string \<Rightarrow> string option" where
  "id_then c s =
     (case dropWhile id_char s of
        [] \<Rightarrow> None
      | x # rest \<Rightarrow> if takeWhile id_char s \<noteq> [] \<and> x = c then Some rest else None)"

text \<open>\<^verbatim>\<open>[a-zA-Z0-9_-]+\<close> at the end of a pattern: \<^verbatim>\<open>re.match\<close> accepts any continuation.\<close>

definition id_start :: "string \<Rightarrow> bool" where
  "id_start s = (case s of [] \<Rightarrow> False | x # rest \<Rightarrow> id_char x)"

definition after_scheme :: "string \<Rightarrow> string option" where
  "after_scheme link =
     (case strip_prefix ''https://'' link of
        Some r \<Rightarrow> Some r
      | None \<Rightarrow> strip_prefix ''http://'' link)"

definition match_path :: "string \<Rightarrow> string \<Rightarrow> char \<Rightarrow> string \<Rightarrow> bool" where
  "match_path host intro sep s =
     (case strip_prefix (host @ intro) s of
        None \<Rightarrow> False
      | Some r \<Rightarrow> (case id_then sep r of None \<Rightarrow> False | Some k \<Rightarrow> id_start k))"

definition is_valid_mega_link :: "string \<Rightarrow> bool" where
  "is_valid_mega_link link =
     (case after_scheme link of
        None \<Rightarrow> False
      | Some r \<Rightarrow>
          match_path ''mega.nz'' ''/folder/'' CHR ''#'' r
          \<or> match_path ''mega.nz'' ''/#F!'' CHR ''!'' r
          \<or> match_path ''mega.co.nz'' ''/folder/'' CHR ''#'' r
          \<or> match_path ''mega.co.nz'' ''/#F!'' CHR ''!'' r)"

text \<open>\<^verbatim>\<open>str.strip()\<close> on ASCII text.\<close>

definition is_space :: "char \<Rightarrow> bool" where
  "is_space c = (let k = (of_char c :: nat) in (9 \<le> k \<and> k \<le> 13) \<or> (28 \<le> k \<and> k \<le> 32))"

definition strip :: "string \<Rightarrow> string" where
  "strip s = rev (dropWhile is_space (rev (dropWhile is_space s)))"

text \<open>\<^verbatim>\<open>download_command\<close>; \<open>args\<close> is \<^verbatim>\<open>context.args\<close>.\<close>

definition download_command :: "env \<Rightarrow> nat \<Rightarrow> string list \<Rightarrow> bot_state \<Rightarrow> bot_state" where
  "download_command e u args st =
     (if flag u st then st
      else (case args of
              [] \<Rightarrow> st
            | mega_link # others \<Rightarrow>
                if \<not> is_valid_mega_link mega_link then st
                else process_mega_folder e mega_link u st))"

text \<open>\<^verbatim>\<open>handle_mega_link\<close> of \<^verbatim>\<open>main.py\<close>, the handler of plain text messages.\<close>

definition handle_mega_link :: "env \<Rightarrow> nat \<Rightarrow> string \<Rightarrow> bot_state \<Rightarrow> bot_state" where
  "handle_mega_link e u text st =
     (let message_text = strip text
      in if is_valid_mega_link message_text
         then process_mega_folder e message_text u st
         else st)"

subsection \<open>Reading the log of a run\<close>

text \<open>
  The file a logged step starts on: the first download attempt of a file, or its skip.
  \<open>visits\<close> lists the files a run has started on, in the order of the log.
\<close>

fun visit :: "event \<Rightarrow> nat list" where
  "visit (DownloadAttempt i n) = (if n = 1 then [i] else [])"
| "visit (Skipped i) = [i]"
| "visit (Slept d) = []"
| "visit (Upload i) = []"

definition visits :: "event list \<Rightarrow> nat list" where
  "visits evs = concat (map visit evs)"

text \<open>The file index a logged step is about; a sleep is about no file.\<close>

fun about :: "event \<Rightarrow> nat option" where
  "about (DownloadAttempt i n) = Some i"
| "about (Upload i) = Some i"
| "about (Skipped i) = Some i"
| "about (Slept d) = None"

text \<open>The log with the time at which each step begins, the first at time \<open>t\<close>.\<close>

fun stamp :: "int \<Rightarrow> event list \<Rightarrow> (int \<times> event) list" where
  "stamp t [] = []"
| "stamp t (Slept d # evs) = (t, Slept d) # stamp (t + int d) evs"
| "stamp t (DownloadAttempt i n # evs) = (t, DownloadAttempt i n) # stamp t evs"
| "stamp t (Upload i # evs) = (t, Upload i) # stamp t evs"
| "stamp t (Skipped i # evs) = (t, Skipped i) # stamp t evs"

text \<open>The time a log takes: the sum of its sleeps.\<close>

fun elapsed :: "event list \<Rightarrow> int" where
  "elapsed [] = 0"
| "elapsed (Slept d # evs) = int d + elapsed evs"
| "elapsed (DownloadAttempt i n # evs) = elapsed evs"
| "elapsed (Upload i # evs) = elapsed evs"
| "elapsed (Skipped i # evs) = elapsed evs"

text \<open>
  As long as the flag of user \<open>u\<close> is set, the time \<open>c\<close> of the cancel request has not
  passed.
\<close>

definition not_yet :: "int \<Rightarrow> nat \<Rightarrow> bot_state \<Rightarrow> bool" where
  "not_yet c u st = (flag u st \<longrightarrow> clock st \<le> c)"

text \<open>No first download attempt of a file begins after time \<open>c\<close> in the log that starts at \<open>t0\<close>.\<close>

definition starts_by :: "int \<Rightarrow> int \<Rightarrow> event list \<Rightarrow> bool" where
  "starts_by c t0 evs = (\<forall>t i. (t, DownloadAttempt i 1) \<in> set (stamp t0 evs) \<longrightarrow> t \<le> c)"

text \<open>Every step of a log is a sleep or is about file \<open>i\<close>.\<close>

definition only_about :: "nat \<Rightarrow> event list \<Rightarrow> bool" where
  "only_about i evs = (\<forall>ev \<in> set evs. about ev = None \<or> about ev = Some i)"


section \<open>Example data\<close>

definition link_a :: string where
  "link_a = ''https://mega.nz/folder/AAA#kkk''"

definition link_b :: string where
  "link_b = ''https://mega.nz/folder/BBB#kkk''"

definition two_files :: "file_info list" where
  "two_files =
     [\<lparr>handle = ''h0'', name = ''a.bin'', size_bytes = 10\<rparr>,
      \<lparr>handle = ''h1'', name = ''b.bin'', size_bytes = 20\<rparr>]"

text \<open>The store after user 7 has started the download of \<open>link_a\<close> at time 0.\<close>

definition store_one :: database where
  "store_one =
     \<lparr>sessions = [new_session 0 1 7 link_a],
      session_files = map (file_row 1) (enumerate 0 two_files),
      seq = 1\<rparr>"

text \<open>The store after the same user has then started the download of \<open>link_b\<close> at time 5.\<close>

definition store_two :: database where
  "store_two =
     \<lparr>sessions = [(new_session 0 1 7 link_a)\<lparr>status := Cancelled, updated_at := 5\<rparr>,
                  new_session 5 2 7 link_b],
      session_files = map (file_row 1) (enumerate 0 two_files)
                      @ map (file_row 2) (enumerate 0 two_files),
      seq = 2\<rparr>"

text \<open>The store after that first session has been completed at time 0.\<close>

definition store_done :: database where
  "store_done =
     \<lparr>sessions = [(new_session 0 1 7 link_a)\<lparr>status := Completed\<rparr>],
      session_files =
        map (\<lambda>p. (file_row 1 p)\<lparr>file_status := FileCompleted\<rparr>) (enumerate 0 two_files),
      seq = 1\<rparr>"


text \<open>
  The handlers' state at time 10 with the store \<open>store_one\<close> and no run, and the same
  state while a run of user 7 is active.
\<close>

definition state_one :: bot_state where
  "state_one = \<lparr>db = store_one, active_downloads = Map.empty, clock = 10, trace = []\<rparr>"

definition state_active :: bot_state where
  "state_active = state_one\<lparr>active_downloads := [7 \<mapsto> True]\<rparr>"

text \<open>
  The default configuration; every folder lists \<open>two_files\<close>, every download leaves a
  file of the expected size, every upload goes through, nobody cancels.
\<close>

definition base_env :: env where
  "base_env =
     \<lparr>max_retries = 5, retry_delay = 60, max_file_size = 2147483648,
      get_folder_files = (\<lambda>l. Some two_files),
      attempt_outcome = (\<lambda>i n. Done (Some (if i = 0 then 10 else 20))),
      upload_outcome = (\<lambda>i. None),
      sanitize_filename = (\<lambda>s. s),
      cancel_time = None\<rparr>"

text \<open>The download of file 0 fails with an error that is not a quota error.\<close>

definition env_fail_first :: env where
  "env_fail_first =
     base_env\<lparr>attempt_outcome :=
       (\<lambda>i n. if i = 0 then OtherFail ''Download failed: timed out'' else Done (Some 20))\<rparr>"

text \<open>Every download attempt fails with a quota error.\<close>

definition env_quota :: env where
  "env_quota = base_env\<lparr>attempt_outcome := (\<lambda>i n. QuotaFail)\<rparr>"

text \<open>
  The first attempt of file 0 fails with a quota error, and the user's \<^verbatim>\<open>/cancel\<close> arrives
  at time 12, two seconds into the wait that follows.
\<close>

definition env_cancel :: env where
  "env_cancel =
     base_env\<lparr>attempt_outcome :=
                (\<lambda>i n. if i = 0 \<and> n = 1 then QuotaFail
                        else Done (Some (if i = 0 then 10 else 20))),
              cancel_time := Some 12\<rparr>"



section \<open>AdvanceCursor is idempotent\<close>

lemma update_session_index_files_twice:
  "session_files (update_session_index t2 i n (update_session_index t1 i n d)) =
   session_files (update_session_index t1 i n d)"
  by (simp add: update_session_index_def)

lemma update_session_index_cursor:
  "map (\<lambda>s. (sess_id s, current_index s))
       (sessions (update_session_index t2 i n (update_session_index t1 i n d))) =
   map (\<lambda>s. (sess_id s, current_index s)) (sessions (update_session_index t1 i n d))"
  by (simp add: update_session_index_def)

lemma update_session_index_sets_cursor:
  assumes "s \<in> set (sessions (update_session_index t i n d))" and "sess_id s = i"
  shows "current_index s = n"
proof -
  from assms(1) obtain x where x: "x \<in> set (sessions d)"
    and s: "s = (if sess_id x = i then x\<lparr>current_index := n, updated_at := t\<rparr> else x)"
    by (auto simp: update_session_index_def)
  show ?thesis
  proof (cases "sess_id x = i")
    case True
    with s show ?thesis by simp
  next
    case False
    with s assms(2) show ?thesis by simp
  qed
qed

lemma update_session_index_marks:
  "map file_status (session_files (update_session_index t i n d)) =
   map (\<lambda>f. if session_id f = i \<and> file_index f < n then FileCompleted else file_status f)
       (session_files d)"
  by (simp add: update_session_index_def)

text \<open>
  Claim C7. A second \<^verbatim>\<open>update_session_index\<close> with the same index changes neither the
  cursor of any session nor any file row (so the statuses listed for every session stay
  the same); only \<open>updated_at\<close> can differ. Each call sets the cursor of the session to
  \<open>n\<close>, turns the status of exactly the session's files with \<open>file_index < n\<close> into
  completed and leaves the status of every other file row as it was.
\<close>

theorem update_session_index_idempotent:
  "session_files (update_session_index t2 i n (update_session_index t1 i n d)) =
     session_files (update_session_index t1 i n d)
   \<and> list_statuses j (update_session_index t2 i n (update_session_index t1 i n d)) =
     list_statuses j (update_session_index t1 i n d)
   \<and> map (\<lambda>s. s\<lparr>updated_at := 0\<rparr>)
       (sessions (update_session_index t2 i n (update_session_index t1 i n d))) =
     map (\<lambda>s. s\<lparr>updated_at := 0\<rparr>) (sessions (update_session_index t1 i n d))
   \<and> (\<forall>s \<in> set (sessions (update_session_index t1 i n d)).
        sess_id s = i \<longrightarrow> current_index s = n)
   \<and> map file_status (session_files (update_session_index t1 i n d)) =
     map (\<lambda>f. if session_id f = i \<and> file_index f < n then FileCompleted else file_status f)
         (session_files d)"
proof -
  have files: "session_files (update_session_index t2 i n (update_session_index t1 i n d)) =
     session_files (update_session_index t1 i n d)"
    by (rule update_session_index_files_twice)
  have lst: "list_statuses j (update_session_index t2 i n (update_session_index t1 i n d)) =
     list_statuses j (update_session_index t1 i n d)"
    by (simp add: list_statuses_def get_session_files_def files)
  have sess: "map (\<lambda>s. s\<lparr>updated_at := 0\<rparr>)
       (sessions (update_session_index t2 i n (update_session_index t1 i n d))) =
     map (\<lambda>s. s\<lparr>updated_at := 0\<rparr>) (sessions (update_session_index t1 i n d))"
    by (simp add: update_session_index_def)
  have cur: "\<forall>s \<in> set (sessions (update_session_index t1 i n d)).
        sess_id s = i \<longrightarrow> current_index s = n"
    using update_session_index_sets_cursor by blast
  have marks: "map file_status (session_files (update_session_index t1 i n d)) =
     map (\<lambda>f. if session_id f = i \<and> file_index f < n then FileCompleted else file_status f)
         (session_files d)"
    by (rule update_session_index_marks)
  from files lst sess cur marks show ?thesis
    by (intro conjI)
qed

theorem update_session_index_idempotent_witness:
  "(\<exists>s \<in> set (sessions (update_session_index 5 1 1 store_one)).
      sess_id s = 1 \<and> current_index s = 1)
   \<and> list_statuses 1 (update_session_index 9 1 1 (update_session_index 5 1 1 store_one)) =
     list_statuses 1 (update_session_index 5 1 1 store_one)
   \<and> map file_status (session_files (update_session_index 5 1 1 store_one)) =
     [FileCompleted, FilePending]"
  using update_session_index_idempotent [of 9 1 1 5 store_one 1]
  by (simp add: update_session_index_def store_one_def new_session_def file_row_def
      two_files_def)

section \<open>One active session per user, and the uniqueness constraint\<close>


lemma cancel_active_user [simp]: "user_id (cancel_active now u s) = user_id s"
  by (simp add: cancel_active_def)














lemma cleanup_sessions:
  "sessions (cleanup_old_sessions now days d) =
   filter (\<lambda>s. \<not> (is_terminal s \<and> updated_at s < now - int days * 86400)) (sessions d)"
  by (simp add: cleanup_old_sessions_def delete_sessions_def)






lemma create_store_one: "create_session 0 7 link_a two_files empty_db = Inr (1, store_one)"
  by (simp add: create_session_def empty_db_def store_one_def unique_user_status_def)

lemma create_store_two: "create_session 5 7 link_b two_files store_one = Inr (2, store_two)"
  by (simp add: create_session_def store_one_def store_two_def unique_user_status_def
      cancel_active_def new_session_def is_active_def two_files_def file_row_def)

lemma reachable_store_one: "reachable store_one"
  using r_create [OF r_empty create_store_one] .

lemma reachable_store_two: "reachable store_two"
  using r_create [OF reachable_store_one create_store_two] .


lemma not_distinct_map:
  "x \<in> set xs \<Longrightarrow> y \<in> set xs \<Longrightarrow> x \<noteq> y \<Longrightarrow> g x = g y \<Longrightarrow> \<not> distinct (map g xs)"
  by (auto simp: distinct_map inj_on_def)

lemma cancel_collision:
  assumes "c \<in> set ss" and "user_id c = u" and "status c = Cancelled"
    and "a \<in> set ss" and "user_id a = u" and "is_active a"
  shows "\<not> unique_user_status (map (cancel_active now u) ss)"
proof -
  let ?g = "\<lambda>s. (user_id (cancel_active now u s), status (cancel_active now u s))"
  from assms(3,6) have ne: "c \<noteq> a" by (auto simp: is_active_def)
  from assms(2,3) have kc: "?g c = (u, Cancelled)"
    by (simp add: cancel_active_def is_active_def)
  from assms(5,6) have ka: "?g a = (u, Cancelled)"
    by (simp add: cancel_active_def)
  have "\<not> distinct (map ?g ss)"
    by (rule not_distinct_map [OF assms(1) assms(4) ne]) (simp only: kc ka)
  then show ?thesis
    by (simp add: unique_user_status_def o_def)
qed

lemma unique_filter:
  "unique_user_status ss \<Longrightarrow> unique_user_status (filter P ss)"
  by (simp add: unique_user_status_def distinct_map_filter)

lemma reachable_unique:
  assumes "reachable d"
  shows "unique_user_status (sessions d)"
  using assms
proof (induction rule: reachable.induct)
  case r_empty
  show ?case by (simp add: empty_db_def unique_user_status_def)
next
  case (r_create d now u link files i d')
  from r_create.hyps(2) show ?case
    by (auto simp: create_session_def Let_def split: if_splits)
next
  case (r_index d now i n)
  have "map (\<lambda>s. (user_id s, status s)) (sessions (update_session_index now i n d)) =
        map (\<lambda>s. (user_id s, status s)) (sessions d)"
    by (simp add: update_session_index_def)
  with r_index.IH show ?case by (simp only: unique_user_status_def)
next
  case (r_complete d now i d')
  from r_complete.hyps(2) show ?case
    by (auto simp: complete_session_def Let_def split: if_splits)
next
  case (r_cancel d now i d')
  from r_cancel.hyps(2) show ?case
    by (auto simp: cancel_session_def Let_def split: if_splits)
next
  case (r_cleanup d now days)
  then show ?case by (simp add: cleanup_sessions unique_filter)
qed

text \<open>
  Claim C10. Under \<^verbatim>\<open>UNIQUE(user_id, status)\<close> no state of the store has two sessions of
  one user with the same status. So \<^verbatim>\<open>create_session\<close> fails with the integrity error of
  the storage layer, and creates no session, whenever the user already has a cancelled
  session and an active one: the update that cancels the active session would give the
  user two cancelled sessions.
\<close>

theorem create_session_unique_violation:
  "(reachable d \<longrightarrow> unique_user_status (sessions d))
   \<and> ((\<exists>c \<in> set (sessions d). user_id c = u \<and> status c = Cancelled)
       \<and> (\<exists>a \<in> set (sessions d). user_id a = u \<and> is_active a)
       \<longrightarrow> create_session now u link files d = Inl IntegrityError)"
proof (intro conjI impI)
  assume "reachable d"
  then show "unique_user_status (sessions d)" by (rule reachable_unique)
next
  assume h: "(\<exists>c \<in> set (sessions d). user_id c = u \<and> status c = Cancelled)
       \<and> (\<exists>a \<in> set (sessions d). user_id a = u \<and> is_active a)"
  then obtain c a where "c \<in> set (sessions d)" "user_id c = u" "status c = Cancelled"
    "a \<in> set (sessions d)" "user_id a = u" "is_active a"
    by blast
  then have "\<not> unique_user_status (map (cancel_active now u) (sessions d))"
    by (rule cancel_collision)
  then show "create_session now u link files d = Inl IntegrityError"
    by (simp add: create_session_def)
qed

theorem create_session_unique_violation_witness:
  "reachable store_two
   \<and> unique_user_status (sessions store_two)
   \<and> (\<exists>c \<in> set (sessions store_two). user_id c = 7 \<and> status c = Cancelled)
   \<and> (\<exists>a \<in> set (sessions store_two). user_id a = 7 \<and> is_active a)
   \<and> create_session 9 7 link_a two_files store_two = Inl IntegrityError"
proof -
  have c: "\<exists>c \<in> set (sessions store_two). user_id c = 7 \<and> status c = Cancelled"
    by (simp add: store_two_def new_session_def)
  have a: "\<exists>a \<in> set (sessions store_two). user_id a = 7 \<and> is_active a"
    by (simp add: store_two_def new_session_def is_active_def)
  from create_session_unique_violation [of store_two 7 9 link_a two_files]
    reachable_store_two c a
  show ?thesis by blast
qed

section \<open>The rate limit of the progress tracker\<close>

lemma observe_keeps [simp]:
  "last_update (observe now c d) = last_update d"
  "total_size (observe now c d) = total_size d"
  "start_time (observe now c d) = start_time d"
  "filename (observe now c d) = filename d"
  "pstatus (observe now c d) = pstatus d"
  by (simp_all add: observe_def Let_def)

lemma observe_current [simp]: "current (observe now c d) = c"
  by (simp add: observe_def Let_def)






lemma update_interval_kept [simp]:
  "update_interval (snd (update now u c tr)) = update_interval tr"
  by (simp add: update_def Let_def split: option.splits)




section \<open>Cleaning up old sessions\<close>

lemma cleanup_old_sessions_files:
  "session_files (cleanup_old_sessions now days d) = session_files d"
  by (simp add: cleanup_old_sessions_def delete_sessions_def foreign_keys_def)

text \<open>
  Claim C9. \<^verbatim>\<open>cleanup_old_sessions\<close> deletes exactly the completed and cancelled sessions
  that were last updated before the cutoff (lemma \<open>cleanup_sessions\<close>), but it deletes no
  file row: at time 691200 (eight days) with 7 days of retention the completed session of
  \<open>store_done\<close>, last updated at time 0, is deleted, and its two file rows stay in
  \<^verbatim>\<open>session_files\<close>.
\<close>

theorem cleanup_old_sessions_keeps_files:
  "sessions (cleanup_old_sessions 691200 7 store_done) = []
   \<and> session_files (cleanup_old_sessions 691200 7 store_done) = session_files store_done
   \<and> map session_id (session_files store_done) = [1, 1]"
  by (simp add: cleanup_old_sessions_files cleanup_sessions store_done_def new_session_def
      is_terminal_def two_files_def file_row_def)

section \<open>The retry policy\<close>

lemmas env_defs = base_env_def env_fail_first_def env_quota_def env_cancel_def
lemmas step_defs = log_def asyncio_sleep_def wait_exponential_def flag_def cancel_command_def

lemma log_fields [simp]:
  "trace (log ev st) = trace st @ [ev]"
  "db (log ev st) = db st"
  "clock (log ev st) = clock st"
  "active_downloads (log ev st) = active_downloads st"
  by (simp_all add: log_def)

lemma cancel_command_fields [simp]:
  "trace (cancel_command u st) = trace st"
  "db (cancel_command u st) = db st"
  "clock (cancel_command u st) = clock st"
  by (simp_all add: cancel_command_def)

lemma asyncio_sleep_fields [simp]:
  "trace (asyncio_sleep e u d st) = trace st @ [Slept d]"
  "db (asyncio_sleep e u d st) = db st"
  "clock (asyncio_sleep e u d st) = clock st + int d"
  by (simp_all add: asyncio_sleep_def Let_def split: option.splits)

lemma download_file_run:
  assumes "n \<le> m"
    and "\<forall>j. n \<le> j \<and> j < m \<longrightarrow> attempt_outcome e i j = QuotaFail \<and> j < max_retries e"
    and "attempt_outcome e i m \<noteq> QuotaFail \<or> max_retries e \<le> m"
  shows "trace (snd (download_file e u i n st)) =
           trace st
           @ concat (map (\<lambda>j. [DownloadAttempt i j, Slept (wait_exponential j)]) [n..<m])
           @ [DownloadAttempt i m]
         \<and> fst (download_file e u i n st) =
           (case attempt_outcome e i m of
              Done sz \<Rightarrow> Inr sz
            | OtherFail msg \<Rightarrow> Inl (Failed msg)
            | QuotaFail \<Rightarrow> Inl (RetryError m))"
  using assms
proof (induction "m - n" arbitrary: n st)
  case 0
  then have nm: "n = m" by simp
  show ?case
  proof (cases "attempt_outcome e i m")
    case (Done sz)
    with nm show ?thesis by (simp add: download_file.simps [of e u i m])
  next
    case QuotaFail
    with 0(4) have "max_retries e \<le> m" by simp
    with QuotaFail nm show ?thesis by (simp add: download_file.simps [of e u i m])
  next
    case (OtherFail msg)
    with nm show ?thesis by (simp add: download_file.simps [of e u i m])
  qed
next
  case (Suc k)
  then have lt: "n < m" by simp
  with Suc.prems(2) have q: "attempt_outcome e i n = QuotaFail" and r: "n < max_retries e"
    by auto
  let ?st = "asyncio_sleep e u (wait_exponential n) (log (DownloadAttempt i n) st)"
  have step: "download_file e u i n st = download_file e u i (n + 1) ?st"
    using q r by (simp add: download_file.simps [of e u i n])
  have k: "k = m - (n + 1)" using Suc.hyps(2) by simp
  have le: "n + 1 \<le> m" using lt by simp
  have all: "\<forall>j. n + 1 \<le> j \<and> j < m \<longrightarrow> attempt_outcome e i j = QuotaFail \<and> j < max_retries e"
    using Suc.prems(2) by simp
  note ih = Suc.hyps(1) [OF k le all Suc.prems(3), of ?st]
  have upt: "[n..<m] = n # [n + 1..<m]" using lt by (simp add: upt_conv_Cons)
  from ih show ?case by (simp add: step upt)
qed



lemma transfer_file_download_failed:
  assumes "fst (download_file e u i 1 st) = Inl x"
  shows "trace (transfer_file e u sid f i st) =
           trace (snd (download_file e u i 1 st))
           @ (if mentions_quota x then [Slept (retry_delay e)] else []) @ [Slept 1]"
proof -
  obtain st1 where d: "download_file e u i 1 st = (Inl x, st1)"
    using assms by (cases "download_file e u i 1 st") simp
  then show ?thesis
    by (simp add: transfer_file_def attempt_file_def)
qed

text \<open>
  Claim C4, as the code has it. Attempts are numbered from 1 here, so attempt \<open>j\<close> is
  attempt \<open>j - 1\<close> of the specification. As long as the attempts fail with a quota error
  and \<^verbatim>\<open>MAX_RETRIES\<close> is not reached, attempt \<open>j\<close> is followed by a wait of exactly
  \<open>max 4 (min (2 ^ (j - 1)) 60)\<close> seconds and by the next attempt of the same file. The
  first attempt \<open>m\<close> that does not fail with a quota error ends the call: with the file, or
  with its failure, which is not retried. If attempt number \<^verbatim>\<open>MAX_RETRIES\<close> (or the first,
  when \<^verbatim>\<open>MAX_RETRIES\<close> is 0) fails with a quota error too, the call ends with a
  \<^verbatim>\<open>RetryError\<close> for that last attempt. After a failed call the pipeline makes no further
  attempt on the file: it sleeps (\<^verbatim>\<open>RETRY_DELAY\<close> when the text of the error mentions the
  quota, and the one second between files) and goes on.
\<close>

theorem download_file_backoff:
  "(n \<le> m
    \<and> (\<forall>j. n \<le> j \<and> j < m \<longrightarrow> attempt_outcome e i j = QuotaFail \<and> j < max_retries e)
    \<and> (attempt_outcome e i m \<noteq> QuotaFail \<or> max_retries e \<le> m)
    \<longrightarrow> trace (snd (download_file e u i n st)) =
          trace st
          @ concat (map (\<lambda>j. [DownloadAttempt i j, Slept (max 4 (min (2 ^ (j - 1)) 60))])
                        [n..<m])
          @ [DownloadAttempt i m]
        \<and> fst (download_file e u i n st) =
          (case attempt_outcome e i m of
             Done sz \<Rightarrow> Inr sz
           | OtherFail msg \<Rightarrow> Inl (Failed msg)
           | QuotaFail \<Rightarrow> Inl (RetryError m)))
   \<and> (fst (download_file e u i 1 st) = Inl x
      \<longrightarrow> trace (transfer_file e u sid f i st) =
            trace (snd (download_file e u i 1 st))
            @ (if mentions_quota x then [Slept (retry_delay e)] else []) @ [Slept 1])"
proof (intro conjI impI)
  assume h: "n \<le> m
    \<and> (\<forall>j. n \<le> j \<and> j < m \<longrightarrow> attempt_outcome e i j = QuotaFail \<and> j < max_retries e)
    \<and> (attempt_outcome e i m \<noteq> QuotaFail \<or> max_retries e \<le> m)"
  then have a: "n \<le> m"
    and b: "\<forall>j. n \<le> j \<and> j < m \<longrightarrow> attempt_outcome e i j = QuotaFail \<and> j < max_retries e"
    and c: "attempt_outcome e i m \<noteq> QuotaFail \<or> max_retries e \<le> m"
    by blast+
  have w: "\<And>j. wait_exponential j = max 4 (min (2 ^ (j - 1)) 60)"
    by (simp add: wait_exponential_def)
  from download_file_run [OF a b c, of u st]
  show "trace (snd (download_file e u i n st)) =
          trace st
          @ concat (map (\<lambda>j. [DownloadAttempt i j, Slept (max 4 (min (2 ^ (j - 1)) 60))])
                        [n..<m])
          @ [DownloadAttempt i m]"
    by (simp only: w)
  from download_file_run [OF a b c, of u st]
  show "fst (download_file e u i n st) =
          (case attempt_outcome e i m of
             Done sz \<Rightarrow> Inr sz
           | OtherFail msg \<Rightarrow> Inl (Failed msg)
           | QuotaFail \<Rightarrow> Inl (RetryError m))"
    by blast
next
  assume "fst (download_file e u i 1 st) = Inl x"
  then show "trace (transfer_file e u sid f i st) =
            trace (snd (download_file e u i 1 st))
            @ (if mentions_quota x then [Slept (retry_delay e)] else []) @ [Slept 1]"
    by (rule transfer_file_download_failed)
qed

theorem download_file_backoff_witness:
  "trace (snd (download_file env_quota 7 0 1 state_one)) =
     [DownloadAttempt 0 1, Slept 4, DownloadAttempt 0 2, Slept 4, DownloadAttempt 0 3, Slept 4,
      DownloadAttempt 0 4, Slept 8, DownloadAttempt 0 5]
   \<and> fst (download_file env_quota 7 0 1 state_one) = Inl (RetryError 5)
   \<and> trace (transfer_file env_quota 7 1 (two_files ! 0) 0 state_one) =
     [DownloadAttempt 0 1, Slept 4, DownloadAttempt 0 2, Slept 4, DownloadAttempt 0 3, Slept 4,
      DownloadAttempt 0 4, Slept 8, DownloadAttempt 0 5, Slept 60, Slept 1]"
proof -
  have h: "(1::nat) \<le> 5
    \<and> (\<forall>j. 1 \<le> j \<and> j < 5 \<longrightarrow>
          attempt_outcome env_quota 0 j = QuotaFail \<and> j < max_retries env_quota)
    \<and> (attempt_outcome env_quota 0 5 \<noteq> QuotaFail \<or> max_retries env_quota \<le> 5)"
    by (simp add: env_defs)
  have o: "attempt_outcome env_quota 0 5 = QuotaFail" by (simp add: env_defs)
  have u: "[Suc 0..<5] = [Suc 0, 2, 3, 4]" by (simp add: upt_rec)
  note t = download_file_backoff [of 1 5 env_quota 0 7 state_one "RetryError 5" 1 "two_files ! 0"]
  from t h have tr: "trace (snd (download_file env_quota 7 0 1 state_one)) =
     [DownloadAttempt 0 1, Slept 4, DownloadAttempt 0 2, Slept 4, DownloadAttempt 0 3, Slept 4,
      DownloadAttempt 0 4, Slept 8, DownloadAttempt 0 5]"
    by (simp add: u state_one_def)
  from t h o have res: "fst (download_file env_quota 7 0 1 state_one) = Inl (RetryError 5)"
    by simp
  from t res tr have "trace (transfer_file env_quota 7 1 (two_files ! 0) 0 state_one) =
     [DownloadAttempt 0 1, Slept 4, DownloadAttempt 0 2, Slept 4, DownloadAttempt 0 3, Slept 4,
      DownloadAttempt 0 4, Slept 8, DownloadAttempt 0 5, Slept 60, Slept 1]"
    by (simp add: env_defs)
  with tr res show ?thesis by simp
qed

text \<open>
  Claim C4 as the specification states it (a wait of \<open>min max_delay (base * 2 ^ i)\<close> after
  attempt \<open>i\<close>, counted from 0) fails when every attempt fails with a quota error: the
  waits are 4, 4, 4 and 8 seconds. With the multiplier 1 of the decorator as \<open>base\<close> the
  formula gives 1 second after attempt 0, and with the floor 4 as \<open>base\<close> it gives 8 seconds
  after attempt 1.
\<close>

theorem backoff_formula_counterexample:
  "trace (snd (download_file env_quota 7 0 1 state_one)) =
     [DownloadAttempt 0 1, Slept 4, DownloadAttempt 0 2, Slept 4, DownloadAttempt 0 3, Slept 4,
      DownloadAttempt 0 4, Slept 8, DownloadAttempt 0 5]
   \<and> spec_backoff 1 60 0 = 1 \<and> spec_backoff 1 60 1 = 2
   \<and> spec_backoff 4 60 0 = 4 \<and> spec_backoff 4 60 1 = 8"
  by (simp add: download_file.simps env_defs step_defs state_one_def spec_backoff_def)

section \<open>Resuming a session\<close>

lemma visits_simps [simp]:
  "visits [] = []"
  "visits (ev # evs) = visit ev @ visits evs"
  "visits (xs @ ys) = visits xs @ visits ys"
  by (simp_all add: visits_def)

lemma only_about_simps [simp]:
  "only_about i []"
  "only_about i (ev # evs) = ((about ev = None \<or> about ev = Some i) \<and> only_about i evs)"
  "only_about i (xs @ ys) = (only_about i xs \<and> only_about i ys)"
  by (auto simp: only_about_def)
















subsection \<open>File indices are the positions in the stored list\<close>

lemma file_row_fields [simp]:
  "session_id (file_row i p) = i"
  "file_index (file_row i p) = fst p"
  by (simp_all add: file_row_def)












section \<open>A file that fails\<close>






lemmas run_defs = process_mega_folder_def run_session_def start_new_def transfer_file_def
  attempt_file_def download_file.simps get_session_def get_session_files_def
  update_session_index_def complete_session_def set_status_def unique_user_status_def
  row_info_def is_active_def list_statuses_def lower_char_def





section \<open>Cancelling a run\<close>



lemma starts_by_Nil [simp]: "starts_by c t []"
  by (simp add: starts_by_def)



lemma starts_by_other [simp]:
  "starts_by c t (Slept d # evs) = starts_by c (t + int d) evs"
  "starts_by c t (Upload i # evs) = starts_by c t evs"
  "starts_by c t (Skipped i # evs) = starts_by c t evs"
  by (auto simp: starts_by_def)




lemma log_not_yet [simp]: "not_yet c u (log ev st) = not_yet c u st"
  by (simp add: not_yet_def flag_def)

















section \<open>Single flight\<close>

lemmas link_defs = is_valid_mega_link_def after_scheme_def match_path_def id_then_def
  id_start_def id_char_def strip_def is_space_def

lemma link_b_valid: "is_valid_mega_link link_b"
  by (simp add: link_defs link_b_def)

lemma link_b_strip: "strip link_b = link_b"
  by (simp add: link_defs link_b_def)

lemma download_command_guard:
  "flag u st \<Longrightarrow> download_command e u args st = st"
  by (simp add: download_command_def)

lemma handle_mega_link_unguarded:
  "is_valid_mega_link (strip text) \<Longrightarrow>
   handle_mega_link e u text st = process_mega_folder e (strip text) u st"
  by (simp add: handle_mega_link_def Let_def)

text \<open>
  Claim C1. \<^verbatim>\<open>download_command\<close> rejects a request while the user's flag is set and leaves
  the state as it is (lemma \<open>download_command_guard\<close>). \<^verbatim>\<open>handle_mega_link\<close>, the handler
  of plain text messages, has no such test: it starts \<^verbatim>\<open>process_mega_folder\<close> for every
  valid link. In \<open>state_active\<close> user 7 has a run in progress on the session of \<open>link_a\<close>;
  the message \<open>link_b\<close> is refused by \<^verbatim>\<open>download_command\<close> but, sent as plain text,
  starts a second run that cancels the active session, creates and completes a new one,
  and clears the flag of the run in progress.
\<close>

theorem handle_mega_link_starts_second_run:
  "flag 7 state_active
   \<and> active_sessions 7 (db state_active) = [new_session 0 1 7 link_a]
   \<and> is_valid_mega_link link_b
   \<and> download_command base_env 7 [link_b] state_active = state_active
   \<and> handle_mega_link base_env 7 link_b state_active =
     process_mega_folder base_env link_b 7 state_active
   \<and> map (\<lambda>s. (sess_id s, folder_link s, status s))
       (sessions (db (handle_mega_link base_env 7 link_b state_active))) =
     [(1, link_a, Cancelled), (2, link_b, Completed)]
   \<and> trace (handle_mega_link base_env 7 link_b state_active) =
     [DownloadAttempt 0 1, Upload 0, Slept 1, DownloadAttempt 1 1, Upload 1, Slept 1]
   \<and> \<not> flag 7 (handle_mega_link base_env 7 link_b state_active)"
proof -
  have f: "flag 7 state_active" by (simp add: flag_def state_active_def)
  have a: "active_sessions 7 (db state_active) = [new_session 0 1 7 link_a]"
    by (simp add: active_sessions_def state_active_def state_one_def store_one_def
        new_session_def is_active_def)
  have d: "download_command base_env 7 [link_b] state_active = state_active"
    using f by (rule download_command_guard)
  have h: "handle_mega_link base_env 7 link_b state_active =
     process_mega_folder base_env link_b 7 state_active"
    using link_b_valid by (simp add: handle_mega_link_def link_b_strip)
  have ne: "link_a \<noteq> link_b" by (simp add: link_a_def link_b_def)
  have s: "map (\<lambda>s. (sess_id s, folder_link s, status s))
       (sessions (db (process_mega_folder base_env link_b 7 state_active))) =
     [(1, link_a, Cancelled), (2, link_b, Completed)]"
    using ne
    by (simp add: run_defs create_session_def cancel_active_def state_one_def state_active_def
        store_one_def new_session_def file_row_def two_files_def env_defs step_defs upt_rec)
  have t: "trace (process_mega_folder base_env link_b 7 state_active) =
     [DownloadAttempt 0 1, Upload 0, Slept 1, DownloadAttempt 1 1, Upload 1, Slept 1]"
    using ne
    by (simp add: run_defs create_session_def cancel_active_def state_one_def state_active_def
        store_one_def new_session_def file_row_def two_files_def env_defs step_defs upt_rec)
  have n: "\<not> flag 7 (process_mega_folder base_env link_b 7 state_active)"
    by (simp add: process_mega_folder_def flag_def Let_def)
  from f a link_b_valid d h s t n show ?thesis by (simp only: h) simp
qed

end
